theory Spec2Isabelle
  imports Complex_Main
begin

section \<open>Values\<close>

text \<open>
  The program is \<^verbatim>\<open>src/index.ts\<close>: a command-line loop that answers questions with a
  four-node LangGraph pipeline (search, fetchWiki, retrieve, generate) over Wikipedia.
  A JavaScript string is modelled as an Isabelle string, one \<open>char\<close> per code unit
  (code units below 256). A value that may be \<^verbatim>\<open>undefined\<close> is an option.
  A thrown value is an \<open>error\<close>: \<open>TypeError\<close> when the runtime itself throws (a method
  called on \<^verbatim>\<open>undefined\<close>), \<open>Error\<close> for whatever an external call rejects with.
\<close>

datatype error = Error string | TypeError string

datatype document = Document (pageContent: string)

type_synonym vector = "real list"

text \<open>A \<^verbatim>\<open>MemoryVectorStore\<close> holds its documents with their embedding vectors.\<close>

type_synonym vector_store = "(document \<times> vector) list"

datatype tool_call = ToolCall (name: string) (args_searchTerm: string)

datatype ai_message = AIMessage (content: string) (tool_calls: "tool_call list option")

datatype wiki_result = WikiResult (title: string) (pageid: nat)

datatype page = Page (page_title: string)

text \<open>
  The six channels of \<^verbatim>\<open>StateAnnotation\<close>. Each is a last-value channel that starts
  \<^verbatim>\<open>undefined\<close>. The same record is the partial object a node returns: \<open>None\<close> is a
  key the node did not return.
\<close>

record state =
  question :: "string option"
  context' :: "document list option"
  searchTerm :: "string option"
  searchContent :: "string option"
  answer :: "string option"
  previousQuestion :: "string option"

text \<open>
  The result of a prompt template's \<^verbatim>\<open>invoke\<close>: which template it was, and the values
  it was given, in the order of the source.
\<close>

datatype messages =
    StartingPrompt "string option"
  | FollowUpPrompt "string option" "document list option" "string option" "string option"
  | Prompt "string option" string

text \<open>The lines the program prints (colours left out).\<close>

datatype line =
    Goodbye
  | Thinking
  | AnswerLine "string option"
  | ErrorLine error
  | AskAnother
  | AnsweringPrevious
  | FetchingWiki string
  | SearchingWiki string
  | SearchComplete string
  | CreatingEmbeddings
  | CreatedEmbeddings
  | UsingCached

text \<open>
  What the process does that can be seen from outside, in order: the lines it prints,
  the runs of the graph it starts (with the thread and the question), the calls it
  makes to the external services and to \<^verbatim>\<open>createEmbeddings\<close> (recorded when the
  call is made, with its argument), and its exit.
\<close>

datatype event =
    ConsoleLog line
  | ConsoleError line
  | GraphInvoke int string
  | LlmInvoke messages
  | WikiSearch string
  | WikiPage string
  | CreateEmbeddings "string option"
  | SimilaritySearch "string option"
  | ProcessExit int

text \<open>
  The external services: the language model, the Wikipedia client, the text splitter,
  the embedding service behind \<^verbatim>\<open>addDocuments\<close> and \<^verbatim>\<open>similaritySearch\<close>. Each is
  any function of its argument that returns or rejects. \<open>fetch_delay i\<close> is the time
  the \<open>i\<close>-th page fetch of a \<^verbatim>\<open>Promise.all\<close> takes: it fixes the order in which the
  parallel fetches complete. The theorems quantify over a separate \<open>env\<close> for each
  turn, since a service may answer differently from one turn to the next.
\<close>

record env =
  llm_invoke :: "messages \<Rightarrow> error + ai_message"
  wiki_search :: "string \<Rightarrow> error + wiki_result list"
  wiki_page :: "string \<Rightarrow> error + page"
  page_content :: "page \<Rightarrow> error + string"
  fetch_delay :: "nat \<Rightarrow> nat"
  createDocuments :: "string \<Rightarrow> error + document list"
  addDocuments :: "document list \<Rightarrow> error + vector_store"
  similaritySearch :: "vector_store \<Rightarrow> string option \<Rightarrow> error + document list"

text \<open>
  The state of the process: what it has done so far, the \<^verbatim>\<open>embeddingCache\<close> map (a
  JavaScript \<^verbatim>\<open>Map\<close> accepts \<^verbatim>\<open>undefined\<close> as a key), the checkpoints of the
  \<^verbatim>\<open>MemorySaver\<close> (the channel values of each thread, by its \<^verbatim>\<open>thread_id\<close>), and the exit code once
  \<^verbatim>\<open>process.exit\<close> has been called.
\<close>

record world =
  trace :: "event list"
  embeddingCache :: "string option \<Rightarrow> vector_store option"
  memory :: "int \<Rightarrow> state"
  exited :: "int option"

section \<open>JavaScript helpers\<close>

text \<open>Truthiness: a string is truthy unless undefined or empty; an array is truthy
  whenever it is defined, also when it is empty.\<close>

definition truthy_string :: "string option \<Rightarrow> bool" where
  "truthy_string v = (case v of None \<Rightarrow> False | Some s \<Rightarrow> s \<noteq> [])"

definition truthy_array :: "'a list option \<Rightarrow> bool" where
  "truthy_array v = (case v of None \<Rightarrow> False | Some xs \<Rightarrow> True)"

fun join :: "string \<Rightarrow> string list \<Rightarrow> string" where
  "join sep [] = []"
| "join sep [x] = x"
| "join sep (x # y # ys) = x @ sep @ join sep (y # ys)"

definition newline :: string where
  "newline = [CHR 0x0A]"

definition isWhiteSpace :: "char \<Rightarrow> bool" where
  "isWhiteSpace c = (c \<in> {CHR 0x09, CHR 0x0A, CHR 0x0B, CHR 0x0C, CHR 0x0D, CHR 0x20, CHR 0xA0})"

definition trim :: "string \<Rightarrow> string" where
  "trim s = rev (dropWhile isWhiteSpace (rev (dropWhile isWhiteSpace s)))"

definition lower_char :: "char \<Rightarrow> char" where
  "lower_char c =
     (let n = (of_char c :: nat) in
      if (65 \<le> n \<and> n \<le> 90) \<or> (192 \<le> n \<and> n \<le> 222 \<and> n \<noteq> 215)
      then char_of (n + 32) else c)"

definition toLowerCase :: "string \<Rightarrow> string" where
  "toLowerCase s = map lower_char s"

text \<open>
  \<^verbatim>\<open>Promise.all\<close> over promises that settle as \<open>ps\<close>. The promises settle in the order
  of their delays (ties in index order). Each fulfilment stores its value at the
  promise's own index; the first rejection rejects the whole. Once every promise has
  settled the stored values are the result.
\<close>

fun settle :: "(error + 'a) list \<Rightarrow> nat list \<Rightarrow> 'a option list \<Rightarrow> error + 'a option list" where
  "settle ps [] vals = Inr vals"
| "settle ps (i # is) vals =
     (case ps ! i of
        Inl e \<Rightarrow> Inl e
      | Inr v \<Rightarrow> settle ps is (vals[i := Some v]))"

definition completion_order :: "(nat \<Rightarrow> nat) \<Rightarrow> nat \<Rightarrow> nat list" where
  "completion_order delay n = sort_key delay [0..<n]"

definition promise_all :: "(nat \<Rightarrow> nat) \<Rightarrow> (error + 'a) list \<Rightarrow> error + 'a list" where
  "promise_all delay ps =
     (case settle ps (completion_order delay (length ps)) (replicate (length ps) None) of
        Inl e \<Rightarrow> Inl e
      | Inr vals \<Rightarrow> Inr (List.map_filter (\<lambda>v. v) vals))"

definition emit :: "event \<Rightarrow> world \<Rightarrow> world" where
  "emit ev w = w\<lparr>trace := trace w @ [ev]\<rparr>"

definition console_log :: "line \<Rightarrow> world \<Rightarrow> world" where
  "console_log l w = emit (ConsoleLog l) w"

definition console_error :: "line \<Rightarrow> world \<Rightarrow> world" where
  "console_error l w = emit (ConsoleError l) w"

section \<open>The content fetcher\<close>

definition MAX_SEARCH_RESULTS :: nat where
  "MAX_SEARCH_RESULTS = 3"

text \<open>One element of the \<^verbatim>\<open>Promise.all\<close>: \<^verbatim>\<open>wiki.page(title)\<close>, then \<^verbatim>\<open>page.content()\<close>.\<close>

definition fetch_page :: "env \<Rightarrow> string \<Rightarrow> error + string" where
  "fetch_page env t =
     (case wiki_page env t of
        Inl e \<Rightarrow> Inl e
      | Inr p \<Rightarrow> page_content env p)"

definition getWikiPageContent :: "env \<Rightarrow> string \<Rightarrow> world \<Rightarrow> (error + string) \<times> world" where
  "getWikiPageContent env term w =
     (let w1 = emit (WikiSearch term) (console_log (SearchingWiki term) w) in
      case wiki_search env term of
        Inl e \<Rightarrow> (Inl e, w1)
      | Inr results \<Rightarrow>
          (let trimmedResults = map title (take MAX_SEARCH_RESULTS results);
               w2 = w1\<lparr>trace := trace w1 @ map WikiPage trimmedResults\<rparr> in
           case promise_all (fetch_delay env) (map (fetch_page env) trimmedResults) of
             Inl e \<Rightarrow> (Inl e, w2)
           | Inr contents \<Rightarrow>
               (Inr (join newline contents),
                console_log (SearchComplete (join '', '' trimmedResults)) w2)))"

section \<open>The nodes of the graph\<close>

definition no_update :: state where
  "no_update = \<lparr>question = None, context' = None, searchTerm = None,
     searchContent = None, answer = None, previousQuestion = None\<rparr>"

definition search_messages :: "state \<Rightarrow> messages" where
  "search_messages s =
     (if truthy_array (context' s) \<and> truthy_string (answer s)
      then FollowUpPrompt (question s) (context' s) (answer s) (previousQuestion s)
      else StartingPrompt (question s))"

definition wikiToolCall :: "ai_message \<Rightarrow> tool_call option" where
  "wikiToolCall response =
     (case tool_calls response of
        None \<Rightarrow> None
      | Some calls \<Rightarrow> List.find (\<lambda>call. name call = ''wikipedia'') calls)"

definition search :: "env \<Rightarrow> state \<Rightarrow> world \<Rightarrow> (error + state) \<times> world" where
  "search env s w =
     (let w1 = emit (LlmInvoke (search_messages s)) w in
      case llm_invoke env (search_messages s) of
        Inl e \<Rightarrow> (Inl e, w1)
      | Inr response \<Rightarrow>
          (case wikiToolCall response of
             None \<Rightarrow>
               (Inr (no_update\<lparr>searchTerm := Some [], answer := Some (content response)\<rparr>), w1)
           | Some call \<Rightarrow>
               (Inr (no_update\<lparr>searchTerm := Some (args_searchTerm call),
                      answer := Some (content response),
                      previousQuestion := question s\<rparr>), w1)))"

definition fetchWiki :: "env \<Rightarrow> state \<Rightarrow> world \<Rightarrow> (error + state) \<times> world" where
  "fetchWiki env s w =
     (case searchTerm s of
        None \<Rightarrow> (Inr s, console_log AnsweringPrevious w)
      | Some term \<Rightarrow>
          if term = [] then (Inr s, console_log AnsweringPrevious w)
          else
            (case getWikiPageContent env term (console_log (FetchingWiki term) w) of
               (Inl e, w1) \<Rightarrow> (Inl e, w1)
             | (Inr wikiContent, w1) \<Rightarrow>
                 (Inr (no_update\<lparr>searchContent := Some wikiContent\<rparr>), w1)))"

text \<open>
  \<^verbatim>\<open>createEmbeddings(text)\<close>. The splitter's \<^verbatim>\<open>createDocuments([text])\<close> calls
  \<^verbatim>\<open>text.includes\<close>, which throws a \<^verbatim>\<open>TypeError\<close> when \<^verbatim>\<open>text\<close> is \<^verbatim>\<open>undefined\<close>.
\<close>

definition createEmbeddings :: "env \<Rightarrow> string option \<Rightarrow> world \<Rightarrow> (error + vector_store) \<times> world" where
  "createEmbeddings env txt w =
     (let w1 = emit (CreateEmbeddings txt) w in
      case txt of
        None \<Rightarrow> (Inl (TypeError ''Cannot read properties of undefined''), w1)
      | Some t \<Rightarrow>
          (case createDocuments env t of
             Inl e \<Rightarrow> (Inl e, w1)
           | Inr allSplits \<Rightarrow>
               (case addDocuments env allSplits of
                  Inl e \<Rightarrow> (Inl e, w1)
                | Inr vectorStore \<Rightarrow> (Inr vectorStore, w1))))"

text \<open>The last two lines of \<^verbatim>\<open>retrieve\<close>: the similarity search on the chosen store.\<close>

definition retrievedDocs :: "env \<Rightarrow> state \<Rightarrow> vector_store \<Rightarrow> world \<Rightarrow> (error + state) \<times> world" where
  "retrievedDocs env s vectorStore w =
     (let w1 = emit (SimilaritySearch (question s)) w in
      case similaritySearch env vectorStore (question s) of
        Inl e \<Rightarrow> (Inl e, w1)
      | Inr docs \<Rightarrow> (Inr (no_update\<lparr>context' := Some docs\<rparr>), w1))"

definition retrieve :: "env \<Rightarrow> state \<Rightarrow> world \<Rightarrow> (error + state) \<times> world" where
  "retrieve env s w =
     (case embeddingCache w (searchContent s) of
        None \<Rightarrow>
          (case createEmbeddings env (searchContent s) (console_log CreatingEmbeddings w) of
             (Inl e, w1) \<Rightarrow> (Inl e, w1)
           | (Inr vectorStore, w1) \<Rightarrow>
               retrievedDocs env s vectorStore
                 (console_log CreatedEmbeddings
                    (w1\<lparr>embeddingCache := (embeddingCache w1)(searchContent s \<mapsto> vectorStore)\<rparr>)))
      | Some vectorStore \<Rightarrow> retrievedDocs env s vectorStore (console_log UsingCached w))"

definition generate :: "env \<Rightarrow> state \<Rightarrow> world \<Rightarrow> (error + state) \<times> world" where
  "generate env s w =
     (case context' s of
        None \<Rightarrow> (Inl (TypeError ''Cannot read properties of undefined''), w)
      | Some docs \<Rightarrow>
          (let docsContent = join newline (map pageContent docs);
               w1 = emit (LlmInvoke (Prompt (question s) docsContent)) w in
           case llm_invoke env (Prompt (question s) docsContent) of
             Inl e \<Rightarrow> (Inl e, w1)
           | Inr response \<Rightarrow> (Inr (no_update\<lparr>answer := Some (content response)\<rparr>), w1)))"

section \<open>The compiled graph\<close>

text \<open>
  The graph is the path of its edges: start, search, fetchWiki, retrieve, generate, end.
  It is compiled with a \<^verbatim>\<open>MemorySaver\<close> checkpointer. LangGraph runs one node per
  super-step on the channel values of the thread, writes the keys the node returned
  into their channels, and saves a checkpoint of the channel values after the input
  has been written and after every super-step. A node that throws ends the run with
  its error; the checkpoint saved last stays. The next run on the thread starts from it.
\<close>

datatype node = Search | FetchWiki | Retrieve | Generate

fun node_fn :: "node \<Rightarrow> env \<Rightarrow> state \<Rightarrow> world \<Rightarrow> (error + state) \<times> world" where
  "node_fn Search = search"
| "node_fn FetchWiki = fetchWiki"
| "node_fn Retrieve = retrieve"
| "node_fn Generate = generate"

definition graph :: "node list" where
  "graph = [Search, FetchWiki, Retrieve, Generate]"

definition put :: "'a option \<Rightarrow> 'a option \<Rightarrow> 'a option" where
  "put old new = (case new of None \<Rightarrow> old | Some v \<Rightarrow> Some v)"

definition apply_writes :: "state \<Rightarrow> state \<Rightarrow> state" where
  "apply_writes s u =
     \<lparr>question = put (question s) (question u),
      context' = put (context' s) (context' u),
      searchTerm = put (searchTerm s) (searchTerm u),
      searchContent = put (searchContent s) (searchContent u),
      answer = put (answer s) (answer u),
      previousQuestion = put (previousQuestion s) (previousQuestion u)\<rparr>"

definition checkpoint :: "int \<Rightarrow> state \<Rightarrow> world \<Rightarrow> world" where
  "checkpoint thread_id u w = w\<lparr>memory := (memory w)(thread_id := apply_writes (memory w thread_id) u)\<rparr>"

fun run_nodes :: "env \<Rightarrow> int \<Rightarrow> node list \<Rightarrow> world \<Rightarrow> (error + state) \<times> world" where
  "run_nodes env thread_id [] w = (Inr (memory w thread_id), w)"
| "run_nodes env thread_id (n # ns) w =
     (case node_fn n env (memory w thread_id) w of
        (Inl e, w1) \<Rightarrow> (Inl e, w1)
      | (Inr u, w1) \<Rightarrow> run_nodes env thread_id ns (checkpoint thread_id u w1))"

definition invoke :: "env \<Rightarrow> string \<Rightarrow> int \<Rightarrow> world \<Rightarrow> (error + state) \<times> world" where
  "invoke env q thread_id w =
     run_nodes env thread_id graph
       (checkpoint thread_id (no_update\<lparr>question := Some q\<rparr>) (emit (GraphInvoke thread_id q) w))"

section \<open>The session loop\<close>

text \<open>
  The handler of a \<^verbatim>\<open>data\<close> event of standard input, run to its end: the events are
  taken one at a time, each handler has finished when the next line arrives. The graph
  is always invoked on thread 1.
\<close>

definition on_data :: "env \<Rightarrow> string \<Rightarrow> world \<Rightarrow> world" where
  "on_data env data w =
     (if toLowerCase (trim data) = ''/bye''
      then (emit (ProcessExit 0) (console_log Goodbye w))\<lparr>exited := Some 0\<rparr>
      else if length (trim data) = 0 then w
      else
        (case invoke env (trim data) 1 (console_log Thinking w) of
           (Inr result, w1) \<Rightarrow> console_log AskAnother (console_log (AnswerLine (answer result)) w1)
         | (Inl e, w1) \<Rightarrow> console_log AskAnother (console_error (ErrorLine e) w1)))"

definition init_world :: world where
  "init_world = \<lparr>trace = [], embeddingCache = (\<lambda>k. None), memory = (\<lambda>t. no_update), exited = None\<rparr>"

text \<open>A session: the data events in order, each with the services as they answer during
  it. Nothing runs after \<^verbatim>\<open>process.exit\<close>.\<close>

fun session :: "(env \<times> string) list \<Rightarrow> world \<Rightarrow> world" where
  "session [] w = w"
| "session ((env, data) # rest) w =
     (case exited w of
        Some code \<Rightarrow> w
      | None \<Rightarrow> session rest (on_data env data w))"

section \<open>Reading the trace\<close>

fun is_invoke :: "event \<Rightarrow> bool" where
  "is_invoke (GraphInvoke t q) = True"
| "is_invoke ev = False"

fun is_fetch :: "event \<Rightarrow> bool" where
  "is_fetch (WikiSearch t) = True"
| "is_fetch (WikiPage t) = True"
| "is_fetch ev = False"

text \<open>How many times \<^verbatim>\<open>createEmbeddings\<close> was called on the content \<open>k\<close>.\<close>

fun builds :: "string option \<Rightarrow> event list \<Rightarrow> nat" where
  "builds k [] = 0"
| "builds k (CreateEmbeddings k' # evs) = (if k' = k then 1 else 0) + builds k evs"
| "builds k (ev # evs) = builds k evs"

text \<open>
  \<open>extends w w'\<close>: \<open>w'\<close> comes after \<open>w\<close> by steps that started no graph run, kept
  every cache entry and built no index for a string that \<open>w\<close> has an index for.
\<close>

definition extends :: "world \<Rightarrow> world \<Rightarrow> bool" where
  "extends w w' =
     (exited w' = exited w
      \<and> (\<forall>k v. embeddingCache w k = Some v \<longrightarrow> embeddingCache w' k = Some v)
      \<and> (\<exists>evs. trace w' = trace w @ evs
            \<and> (\<forall>ev \<in> set evs. \<not> is_invoke ev)
            \<and> (\<forall>k. embeddingCache w k \<noteq> None \<longrightarrow> CreateEmbeddings k \<notin> set evs)))"

section \<open>Services used in the examples\<close>

definition demo_llm :: "messages \<Rightarrow> error + ai_message" where
  "demo_llm m =
     (case m of
        StartingPrompt q \<Rightarrow> Inr (AIMessage [] (Some [ToolCall ''wikipedia'' ''Batman'']))
      | FollowUpPrompt q c a p \<Rightarrow> Inr (AIMessage ''Michael Keaton.'' (Some []))
      | Prompt q c \<Rightarrow> Inr (AIMessage ''Batman is a superhero.'' None))"

definition demo_env :: env where
  "demo_env =
     \<lparr>llm_invoke = demo_llm,
      wiki_search = (\<lambda>t. Inr [WikiResult ''Batman'' 1, WikiResult ''Batman in film'' 2,
                      WikiResult ''The Batman (film)'' 3, WikiResult ''Batman Returns'' 4]),
      wiki_page = (\<lambda>t. Inr (Page t)),
      page_content = (\<lambda>p. Inr (''About '' @ page_title p)),
      fetch_delay = (\<lambda>i. 3 - i),
      createDocuments = (\<lambda>t. Inr [Document t]),
      addDocuments = (\<lambda>ds. Inr (map (\<lambda>d. (d, [])) ds)),
      similaritySearch = (\<lambda>vs q. Inr (map fst vs))\<rparr>"

text \<open>Services for which no page matches, and the splitter finds no chunk in the empty text.\<close>

definition no_pages_env :: env where
  "no_pages_env = demo_env\<lparr>wiki_search := (\<lambda>t. Inr []), createDocuments := (\<lambda>t. Inr [])\<rparr>"

text \<open>The text fetched for the first question, and the process after that question.\<close>

definition demo_content :: string where
  "demo_content = join newline [''About Batman'', ''About Batman in film'', ''About The Batman (film)'']"

definition demo_world :: world where
  "demo_world = on_data demo_env ''Who is Batman?'' init_world"




section \<open>Lemmas on the helpers\<close>

lemma emit_simps [simp]:
  "trace (emit ev w) = trace w @ [ev]"
  "embeddingCache (emit ev w) = embeddingCache w"
  "memory (emit ev w) = memory w"
  "exited (emit ev w) = exited w"
  by (simp_all add: emit_def)

lemma console_log_simps [simp]:
  "trace (console_log l w) = trace w @ [ConsoleLog l]"
  "embeddingCache (console_log l w) = embeddingCache w"
  "memory (console_log l w) = memory w"
  "exited (console_log l w) = exited w"
  by (simp_all add: console_log_def)

lemma console_error_simps [simp]:
  "trace (console_error l w) = trace w @ [ConsoleError l]"
  "embeddingCache (console_error l w) = embeddingCache w"
  "memory (console_error l w) = memory w"
  "exited (console_error l w) = exited w"
  by (simp_all add: console_error_def)

lemma checkpoint_simps [simp]:
  "trace (checkpoint t u w) = trace w"
  "embeddingCache (checkpoint t u w) = embeddingCache w"
  "exited (checkpoint t u w) = exited w"
  "memory (checkpoint t u w) t = apply_writes (memory w t) u"
  "t' \<noteq> t \<Longrightarrow> memory (checkpoint t u w) t' = memory w t'"
  by (simp_all add: checkpoint_def)

lemma put_simps [simp]:
  "put old None = old"
  "put old (Some v) = Some v"
  "put old old = old"
  by (simp_all add: put_def split: option.splits)

lemma apply_writes_self [simp]: "apply_writes s s = s"
  by (simp add: apply_writes_def)

lemma apply_writes_no_update [simp]: "apply_writes s no_update = s"
  by (simp add: apply_writes_def no_update_def)

lemma apply_writes_fields [simp]:
  "question (apply_writes s u) = put (question s) (question u)"
  "context' (apply_writes s u) = put (context' s) (context' u)"
  "searchTerm (apply_writes s u) = put (searchTerm s) (searchTerm u)"
  "searchContent (apply_writes s u) = put (searchContent s) (searchContent u)"
  "answer (apply_writes s u) = put (answer s) (answer u)"
  "previousQuestion (apply_writes s u) = put (previousQuestion s) (previousQuestion u)"
  by (simp_all add: apply_writes_def)

lemma no_update_fields [simp]:
  "question no_update = None"
  "context' no_update = None"
  "searchTerm no_update = None"
  "searchContent no_update = None"
  "answer no_update = None"
  "previousQuestion no_update = None"
  by (simp_all add: no_update_def)

subsection \<open>Promise.all\<close>

lemma settle_fulfilled:
  assumes "\<forall>i \<in> set is. i < length vs"
  shows "settle (map Inr vs) is vals = Inr (fold (\<lambda>i acc. acc[i := Some (vs ! i)]) is vals)"
  using assms by (induction "is" arbitrary: vals) simp_all

lemma fold_update_length:
  "length (fold (\<lambda>i acc. acc[i := f i]) is vals) = length vals"
  by (induction "is" arbitrary: vals) simp_all

lemma fold_update_nth:
  assumes "j < length vals"
  shows "fold (\<lambda>i acc. acc[i := f i]) is vals ! j = (if j \<in> set is then f j else vals ! j)"
  using assms
proof (induction "is" arbitrary: vals)
  case Nil
  then show ?case by simp
next
  case (Cons i "is")
  have "j < length (vals[i := f i])"
    using Cons.prems by simp
  from Cons.IH [OF this] Cons.prems show ?case
    by (auto simp add: nth_list_update)
qed

lemma set_completion_order: "set (completion_order delay n) = {0..<n}"
  by (simp add: completion_order_def)

lemma map_filter_Some: "List.map_filter (\<lambda>v. v) (map Some vs) = vs"
  by (induction vs) (simp_all add: List.map_filter_simps)

text \<open>When every promise is fulfilled, the values come back in the order of the
  promises, whatever the order of completion.\<close>

lemma promise_all_fulfilled: "promise_all delay (map Inr vs) = Inr vs"
proof -
  let ?ord = "completion_order delay (length vs)"
  let ?vals = "fold (\<lambda>i acc. acc[i := Some (vs ! i)]) ?ord (replicate (length vs) None)"
  have "settle (map Inr vs) ?ord (replicate (length vs) None) = Inr ?vals"
    by (rule settle_fulfilled) (simp add: set_completion_order)
  moreover have "?vals = map Some vs"
    by (rule nth_equalityI) (simp_all add: fold_update_length fold_update_nth set_completion_order)
  ultimately show ?thesis
    by (simp add: promise_all_def map_filter_Some)
qed

lemma settle_rejected:
  assumes "i \<in> set is" "i < length ps" "isl (ps ! i)"
  shows "isl (settle ps is vals)"
  using assms by (induction "is" arbitrary: vals) (auto split: sum.splits)

lemma promise_all_rejected_iff: "isl (promise_all delay ps) \<longleftrightarrow> (\<exists>p \<in> set ps. isl p)"
proof
  assume "\<exists>p \<in> set ps. isl p"
  then obtain i where i: "i < length ps" "isl (ps ! i)"
    by (auto simp add: in_set_conv_nth)
  then have "isl (settle ps (completion_order delay (length ps)) (replicate (length ps) None))"
    by (intro settle_rejected [of i]) (simp_all add: set_completion_order)
  then show "isl (promise_all delay ps)"
    by (auto simp add: promise_all_def split: sum.splits)
next
  assume rej: "isl (promise_all delay ps)"
  show "\<exists>p \<in> set ps. isl p"
  proof (rule ccontr)
    assume "\<not> (\<exists>p \<in> set ps. isl p)"
    then have "ps = map Inr (map projr ps)"
      by (induction ps) (auto simp add: isl_def split: sum.splits)
    then have "promise_all delay ps = Inr (map projr ps)"
      using promise_all_fulfilled [of delay "map projr ps"] by simp
    with rej show False by simp
  qed
qed

subsection \<open>Lower case\<close>

lemma lower_char_eq_iff:
  "lower_char c = d \<longleftrightarrow>
     (let n = (of_char c :: nat); m = (of_char d :: nat) in
      if (65 \<le> n \<and> n \<le> 90) \<or> (192 \<le> n \<and> n \<le> 222 \<and> n \<noteq> 215)
      then n + 32 = m else n = m)"
proof -
  have lt: "(of_char c :: nat) < 256"
    by simp
  show ?thesis
    using lt by (auto simp add: lower_char_def Let_def char_of_eq_iff take_bit_eq_mod)
qed

lemma lower_char_slash: "lower_char c = CHR ''/'' \<longleftrightarrow> c = CHR ''/''"
  by (cases c) (auto simp add: lower_char_eq_iff Let_def)

lemma lower_char_b: "lower_char c = CHR ''b'' \<longleftrightarrow> c = CHR ''b'' \<or> c = CHR ''B''"
  by (cases c) (auto simp add: lower_char_eq_iff Let_def)

lemma lower_char_y: "lower_char c = CHR ''y'' \<longleftrightarrow> c = CHR ''y'' \<or> c = CHR ''Y''"
  by (cases c) (auto simp add: lower_char_eq_iff Let_def)

lemma lower_char_e: "lower_char c = CHR ''e'' \<longleftrightarrow> c = CHR ''e'' \<or> c = CHR ''E''"
  by (cases c) (auto simp add: lower_char_eq_iff Let_def)

lemma toLowerCase_bye:
  "toLowerCase s = ''/bye'' \<longleftrightarrow>
     s \<in> {''/bye'', ''/byE'', ''/bYe'', ''/bYE'', ''/Bye'', ''/ByE'', ''/BYe'', ''/BYE''}"
proof -
  have "toLowerCase s = ''/bye'' \<longleftrightarrow>
      (\<exists>a b c d. s = [a, b, c, d] \<and> lower_char a = CHR ''/'' \<and> lower_char b = CHR ''b''
         \<and> lower_char c = CHR ''y'' \<and> lower_char d = CHR ''e'')"
    by (auto simp add: toLowerCase_def map_eq_Cons_conv)
  also have "\<dots> \<longleftrightarrow>
      s \<in> {''/bye'', ''/byE'', ''/bYe'', ''/bYE'', ''/Bye'', ''/ByE'', ''/BYe'', ''/BYE''}"
    unfolding lower_char_slash lower_char_b lower_char_y lower_char_e by auto
  finally show ?thesis .
qed

subsection \<open>Frames of the nodes\<close>

lemma extends_refl [simp]: "extends w w"
  by (simp add: extends_def)

lemma extends_trans:
  assumes "extends w w1" "extends w1 w2"
  shows "extends w w2"
proof -
  obtain evs1 where 1: "trace w1 = trace w @ evs1" "\<forall>ev \<in> set evs1. \<not> is_invoke ev"
    "\<forall>k. embeddingCache w k \<noteq> None \<longrightarrow> CreateEmbeddings k \<notin> set evs1"
    using assms(1) by (auto simp add: extends_def)
  obtain evs2 where 2: "trace w2 = trace w1 @ evs2" "\<forall>ev \<in> set evs2. \<not> is_invoke ev"
    "\<forall>k. embeddingCache w1 k \<noteq> None \<longrightarrow> CreateEmbeddings k \<notin> set evs2"
    using assms(2) by (auto simp add: extends_def)
  have mono: "\<forall>k v. embeddingCache w k = Some v \<longrightarrow> embeddingCache w1 k = Some v"
    using assms(1) by (simp add: extends_def)
  have "trace w2 = trace w @ (evs1 @ evs2)"
    using 1 2 by simp
  moreover have "\<forall>ev \<in> set (evs1 @ evs2). \<not> is_invoke ev"
    using 1 2 by auto
  moreover have "\<forall>k. embeddingCache w k \<noteq> None \<longrightarrow> CreateEmbeddings k \<notin> set (evs1 @ evs2)"
    using 1 2 mono by fastforce
  moreover have "exited w2 = exited w"
    using assms by (simp add: extends_def)
  moreover have "\<forall>k v. embeddingCache w k = Some v \<longrightarrow> embeddingCache w2 k = Some v"
    using assms by (simp add: extends_def)
  ultimately show ?thesis
    unfolding extends_def by (intro conjI exI [of _ "evs1 @ evs2"])
qed

lemma extends_emit:
  assumes "\<not> is_invoke ev" "\<forall>k. embeddingCache w k \<noteq> None \<longrightarrow> ev \<noteq> CreateEmbeddings k"
  shows "extends w (emit ev w)"
  using assms by (auto simp add: extends_def)

lemma extends_console_log [simp]: "extends w (console_log l w)"
  by (simp add: console_log_def extends_emit)


lemma extends_events:
  assumes "trace w' = trace w @ evs" "embeddingCache w' = embeddingCache w" "exited w' = exited w"
    "\<forall>ev \<in> set evs. \<not> is_invoke ev" "\<forall>k. CreateEmbeddings k \<notin> set evs"
  shows "extends w w'"
  using assms by (auto simp add: extends_def)

lemma getWikiPageContent_rel:
  assumes "getWikiPageContent env term w = (r, w')"
  shows "extends w w'" "memory w' = memory w" "embeddingCache w' = embeddingCache w"
proof -
  show "memory w' = memory w" "embeddingCache w' = embeddingCache w"
    using assms by (auto simp add: getWikiPageContent_def Let_def split: sum.splits)
  then show "extends w w'"
    using assms
    by (intro extends_events [where evs = "drop (length (trace w)) (trace w')"])
      (auto simp add: getWikiPageContent_def Let_def split: sum.splits)
qed

lemma search_rel:
  assumes "search env s w = (r, w')"
  shows "w' = emit (LlmInvoke (search_messages s)) w"
  using assms by (auto simp add: search_def Let_def split: sum.splits option.splits)

lemma fetchWiki_rel:
  assumes "fetchWiki env s w = (r, w')"
  shows "extends w w'" "memory w' = memory w" "embeddingCache w' = embeddingCache w"
proof -
  consider (skip) "w' = console_log AnsweringPrevious w"
    | (fetch) t r1 where "getWikiPageContent env t (console_log (FetchingWiki t) w) = (r1, w')"
    using assms by (auto simp add: fetchWiki_def split: sum.splits option.splits prod.splits if_splits)
  then have "extends w w' \<and> memory w' = memory w \<and> embeddingCache w' = embeddingCache w"
  proof cases
    case skip
    then show ?thesis by simp
  next
    case fetch
    from getWikiPageContent_rel [OF fetch] show ?thesis
      using extends_trans [OF extends_console_log] by simp
  qed
  then show "extends w w'" "memory w' = memory w" "embeddingCache w' = embeddingCache w"
    by simp_all
qed

lemma createEmbeddings_rel:
  assumes "createEmbeddings env txt w = (r, w')"
  shows "w' = emit (CreateEmbeddings txt) w"
  using assms by (auto simp add: createEmbeddings_def Let_def split: sum.splits option.splits)

lemma retrievedDocs_rel:
  assumes "retrievedDocs env s vs w = (r, w')"
  shows "w' = emit (SimilaritySearch (question s)) w"
  using assms by (auto simp add: retrievedDocs_def Let_def split: sum.splits)

lemma retrieve_rel:
  assumes "retrieve env s w = (r, w')"
  shows "extends w w'" "memory w' = memory w"
    "filter is_fetch (trace w') = filter is_fetch (trace w)"
  using assms
  by (auto simp add: retrieve_def extends_def split: sum.splits option.splits prod.splits
      dest!: createEmbeddings_rel retrievedDocs_rel)

lemma generate_rel:
  assumes "generate env s w = (r, w')"
  shows "extends w w'" "memory w' = memory w" "embeddingCache w' = embeddingCache w"
    "filter is_fetch (trace w') = filter is_fetch (trace w)"
  using assms
  by (auto simp add: generate_def Let_def extends_def split: sum.splits option.splits)

lemma node_fn_rel:
  assumes "node_fn n env s w = (r, w')"
  shows "extends w w'" "memory w' = memory w"
proof -
  have "extends w w' \<and> memory w' = memory w"
  proof (cases n)
    case Search
    with assms have "w' = emit (LlmInvoke (search_messages s)) w"
      by (simp add: search_rel)
    then show ?thesis by (simp add: extends_emit)
  next
    case FetchWiki
    with assms show ?thesis by (simp add: fetchWiki_rel)
  next
    case Retrieve
    with assms show ?thesis by (simp add: retrieve_rel)
  next
    case Generate
    with assms show ?thesis by (simp add: generate_rel)
  qed
  then show "extends w w'" "memory w' = memory w" by simp_all
qed


subsection \<open>Unfolding for the examples\<close>

lemmas node_defs = search_def search_messages_def wikiToolCall_def fetchWiki_def
  getWikiPageContent_def fetch_page_def retrieve_def createEmbeddings_def retrievedDocs_def
  generate_def truthy_array_def truthy_string_def promise_all_def completion_order_def
  List.map_filter_def MAX_SEARCH_RESULTS_def Let_def

lemmas loop_defs = on_data_def invoke_def graph_def trim_def isWhiteSpace_def toLowerCase_bye
  init_world_def

lemma demo_world_fields:
  "memory demo_world 1 =
     \<lparr>question = Some ''Who is Batman?'', context' = Some [Document demo_content],
      searchTerm = Some ''Batman'', searchContent = Some demo_content,
      answer = Some ''Batman is a superhero.'', previousQuestion = Some ''Who is Batman?''\<rparr>"
  "embeddingCache demo_world (Some demo_content) = Some [(Document demo_content, [])]"
  "filter is_fetch (trace demo_world) =
     [WikiSearch ''Batman'', WikiPage ''Batman'', WikiPage ''Batman in film'',
      WikiPage ''The Batman (film)'']"
  "exited demo_world = None"
  by (simp_all add: demo_world_def demo_content_def loop_defs node_defs demo_env_def demo_llm_def
      newline_def no_update_def apply_writes_def)

section \<open>The content fetcher: claims C5 and C2\<close>

lemma fetch_page_delay [simp]: "fetch_page (env\<lparr>fetch_delay := d\<rparr>) = fetch_page env"
  by (simp add: fetch_page_def fun_eq_iff split: sum.splits)



text \<open>
  Claim C2 says that a search term matching zero pages makes the fetcher fail. Here
  the title search returns no result and the fetcher returns the empty string.
\<close>

theorem getWikiPageContent_zero_pages_counterexample:
  "wiki_search (demo_env\<lparr>wiki_search := (\<lambda>t. Inr [])\<rparr>) ''zzz'' = Inr []
   \<and> fst (getWikiPageContent (demo_env\<lparr>wiki_search := (\<lambda>t. Inr [])\<rparr>) ''zzz'' init_world) = Inr []"
  by (simp add: getWikiPageContent_def Let_def promise_all_def completion_order_def
      List.map_filter_simps)

text \<open>
  Claim C2, amended. When the title search returns zero pages, the fetcher returns the
  empty string and requests no page. It fails exactly when the title search fails or
  one of the page fetches (of at most the first three titles) fails.
\<close>

theorem getWikiPageContent_fails_iff:
  "(wiki_search env term = Inr [] \<longrightarrow>
      fst (getWikiPageContent env term w) = Inr []
      \<and> filter is_fetch (trace (snd (getWikiPageContent env term w))) =
          filter is_fetch (trace w) @ [WikiSearch term])
   \<and> (isl (fst (getWikiPageContent env term w)) \<longleftrightarrow>
        (case wiki_search env term of
           Inl e \<Rightarrow> True
         | Inr results \<Rightarrow>
             \<exists>t \<in> set (map title (take MAX_SEARCH_RESULTS results)). isl (fetch_page env t)))"
proof (intro conjI impI)
  assume z: "wiki_search env term = Inr []"
  have "promise_all (fetch_delay env) (map (fetch_page env) []) = Inr []"
    using promise_all_fulfilled [of "fetch_delay env" "[]"] by simp
  with z show "fst (getWikiPageContent env term w) = Inr []"
    by (simp add: getWikiPageContent_def Let_def)
  from z \<open>promise_all (fetch_delay env) (map (fetch_page env) []) = Inr []\<close>
  show "filter is_fetch (trace (snd (getWikiPageContent env term w))) =
          filter is_fetch (trace w) @ [WikiSearch term]"
    by (simp add: getWikiPageContent_def Let_def)
next
  show "isl (fst (getWikiPageContent env term w)) \<longleftrightarrow>
        (case wiki_search env term of
           Inl e \<Rightarrow> True
         | Inr results \<Rightarrow>
             \<exists>t \<in> set (map title (take MAX_SEARCH_RESULTS results)). isl (fetch_page env t))"
  proof (cases "wiki_search env term")
    case (Inl e)
    then show ?thesis by (simp add: getWikiPageContent_def Let_def)
  next
    case (Inr results)
    let ?ps = "map (fetch_page env) (map title (take MAX_SEARCH_RESULTS results))"
    have "isl (fst (getWikiPageContent env term w)) \<longleftrightarrow> isl (promise_all (fetch_delay env) ?ps)"
      using Inr by (simp add: getWikiPageContent_def Let_def split: sum.splits)
    also have "\<dots> \<longleftrightarrow> (\<exists>p \<in> set ?ps. isl p)"
      by (rule promise_all_rejected_iff)
    finally show ?thesis
      using Inr by auto
  qed
qed

text \<open>No result: returns. A page that cannot be fetched, or a search that is offline: fails.\<close>

theorem getWikiPageContent_fails_iff_witness:
  "\<not> isl (fst (getWikiPageContent (demo_env\<lparr>wiki_search := (\<lambda>t. Inr [])\<rparr>) ''zzz'' init_world))
   \<and> isl (fst (getWikiPageContent (demo_env\<lparr>wiki_page := (\<lambda>t. Inl (Error ''404''))\<rparr>) ''Batman'' init_world))
   \<and> isl (fst (getWikiPageContent (demo_env\<lparr>wiki_search := (\<lambda>t. Inl (Error ''offline''))\<rparr>) ''Batman'' init_world))"
proof -
  let ?none = "demo_env\<lparr>wiki_search := (\<lambda>t. Inr [])\<rparr>"
  let ?missing = "demo_env\<lparr>wiki_page := (\<lambda>t. Inl (Error ''404''))\<rparr>"
  let ?offline = "demo_env\<lparr>wiki_search := (\<lambda>t. Inl (Error ''offline''))\<rparr>"
  have "wiki_search ?none ''zzz'' = Inr []"
    by simp
  then have 1: "\<not> isl (fst (getWikiPageContent ?none ''zzz'' init_world))"
    using getWikiPageContent_fails_iff [of ?none "''zzz''" init_world] by simp
  have "wiki_search ?missing ''Batman'' = Inr [WikiResult ''Batman'' 1, WikiResult ''Batman in film'' 2,
      WikiResult ''The Batman (film)'' 3, WikiResult ''Batman Returns'' 4]"
    and "isl (fetch_page ?missing ''Batman'')"
    by (simp_all add: demo_env_def fetch_page_def)
  then have 2: "isl (fst (getWikiPageContent ?missing ''Batman'' init_world))"
    using getWikiPageContent_fails_iff [of ?missing "''Batman''" init_world]
    by (auto simp add: MAX_SEARCH_RESULTS_def)
  have "wiki_search ?offline ''Batman'' = Inl (Error ''offline'')"
    by simp
  then have 3: "isl (fst (getWikiPageContent ?offline ''Batman'' init_world))"
    using getWikiPageContent_fails_iff [of ?offline "''Batman''" init_world] by simp
  from 1 2 3 show ?thesis by simp
qed

section \<open>The reasoning step: claims C6 and C7\<close>

lemma wikiToolCall_None_iff:
  "wikiToolCall response = None \<longleftrightarrow>
     (\<forall>calls. tool_calls response = Some calls \<longrightarrow> (\<forall>call \<in> set calls. name call \<noteq> ''wikipedia''))"
  by (auto simp add: wikiToolCall_def find_None_iff split: option.splits)

lemma wikiToolCall_Some:
  assumes "wikiToolCall response = Some call"
  shows "name call = ''wikipedia''" "\<exists>calls. tool_calls response = Some calls \<and> call \<in> set calls"
  using assms by (auto simp add: wikiToolCall_def find_Some_iff split: option.splits)

text \<open>
  Claim C6. When the model answers: if its response holds a tool call named
  \<^verbatim>\<open>wikipedia\<close> (the first such call is taken), \<open>search\<close> returns that call's
  \<open>searchTerm\<close> as the search term, the model's content as the answer, and the current
  question as \<open>previousQuestion\<close>; if the response holds no such call, it returns the
  empty search term and the content as the answer, and no \<open>previousQuestion\<close>.
\<close>

theorem search_returns:
  assumes "llm_invoke env (search_messages s) = Inr response"
  shows "(\<forall>call. wikiToolCall response = Some call \<longrightarrow>
            name call = ''wikipedia''
            \<and> (\<exists>calls. tool_calls response = Some calls \<and> call \<in> set calls)
            \<and> fst (search env s w) =
                Inr (no_update\<lparr>searchTerm := Some (args_searchTerm call),
                       answer := Some (content response),
                       previousQuestion := question s\<rparr>))
    \<and> (wikiToolCall response = None \<longrightarrow>
            fst (search env s w) =
              Inr (no_update\<lparr>searchTerm := Some [], answer := Some (content response)\<rparr>))
    \<and> (wikiToolCall response = None \<longleftrightarrow>
         (\<forall>calls. tool_calls response = Some calls \<longrightarrow>
            (\<forall>call \<in> set calls. name call \<noteq> ''wikipedia'')))"
  using assms wikiToolCall_None_iff [of response]
  by (auto simp add: search_def Let_def dest: wikiToolCall_Some)

text \<open>A response with a \<^verbatim>\<open>wikipedia\<close> call, and one without tool calls.\<close>

theorem search_returns_witness:
  "fst (search demo_env (no_update\<lparr>question := Some ''Who is Batman?''\<rparr>) init_world) =
     Inr (no_update\<lparr>searchTerm := Some ''Batman'', answer := Some [],
            previousQuestion := Some ''Who is Batman?''\<rparr>)
   \<and> fst (search (demo_env\<lparr>llm_invoke := (\<lambda>m. Inr (AIMessage ''I know.'' None))\<rparr>)
          (no_update\<lparr>question := Some ''Who is Batman?''\<rparr>) init_world) =
     Inr (no_update\<lparr>searchTerm := Some [], answer := Some ''I know.''\<rparr>)"
proof -
  let ?s = "no_update\<lparr>question := Some ''Who is Batman?''\<rparr>"
  have m: "search_messages ?s = StartingPrompt (Some ''Who is Batman?'')"
    by (simp add: search_messages_def truthy_array_def)
  have 1: "llm_invoke demo_env (search_messages ?s) =
      Inr (AIMessage [] (Some [ToolCall ''wikipedia'' ''Batman'']))"
    by (simp add: m demo_env_def demo_llm_def)
  have 2: "llm_invoke (demo_env\<lparr>llm_invoke := (\<lambda>m. Inr (AIMessage ''I know.'' None))\<rparr>) (search_messages ?s) =
      Inr (AIMessage ''I know.'' None)"
    by simp
  show ?thesis
    using search_returns [OF 1, of init_world] search_returns [OF 2, of init_world]
    by (simp add: wikiToolCall_def)
qed

text \<open>
  Claim C7 says that follow-up mode is used if and only if the state holds non-empty
  context and a prior answer. Here the first turn's search finds no page, so the
  retrieved context is the empty list; the second turn is prompted in follow-up mode
  all the same, with that empty context.
\<close>

theorem search_messages_empty_context_counterexample:
  "context' (memory (on_data no_pages_env ''Who is Batman?'' init_world) 1) = Some []
   \<and> search_messages (apply_writes (memory (on_data no_pages_env ''Who is Batman?'' init_world) 1)
        (no_update\<lparr>question := Some ''Who played him?''\<rparr>)) =
      FollowUpPrompt (Some ''Who played him?'') (Some []) (Some ''Batman is a superhero.'')
        (Some ''Who is Batman?'')
   \<and> LlmInvoke (FollowUpPrompt (Some ''Who played him?'') (Some []) (Some ''Batman is a superhero.'')
        (Some ''Who is Batman?''))
      \<in> set (trace (session [(no_pages_env, ''Who is Batman?''), (no_pages_env, ''Who played him?'')]
           init_world))"
  by (simp add: loop_defs node_defs no_pages_env_def demo_env_def demo_llm_def)

text \<open>
  Claim C7, amended. The reasoning step prompts in follow-up mode (with the question,
  the previous context, the previous answer and the previous question) if and only if
  the state holds a context, empty or not, and a prior answer that is not the empty
  string; otherwise it prompts in fresh mode with the question alone. That prompt is
  what the language model is called with.
\<close>

theorem search_mode:
  "search_messages s =
     (if context' s \<noteq> None \<and> answer s \<noteq> None \<and> answer s \<noteq> Some []
      then FollowUpPrompt (question s) (context' s) (answer s) (previousQuestion s)
      else StartingPrompt (question s))
   \<and> trace (snd (search env s w)) = trace w @ [LlmInvoke (search_messages s)]"
proof
  show "search_messages s =
     (if context' s \<noteq> None \<and> answer s \<noteq> None \<and> answer s \<noteq> Some []
      then FollowUpPrompt (question s) (context' s) (answer s) (previousQuestion s)
      else StartingPrompt (question s))"
    by (auto simp add: search_messages_def truthy_array_def truthy_string_def split: option.splits)
  obtain r w' where "search env s w = (r, w')"
    by (cases "search env s w")
  then show "trace (snd (search env s w)) = trace w @ [LlmInvoke (search_messages s)]"
    using search_rel by fastforce
qed

text \<open>Context and answer; empty context; empty answer; nothing yet.\<close>

theorem search_mode_witness:
  "search_messages (no_update\<lparr>question := Some ''Q2'', context' := Some [Document ''Batman ...''],
       answer := Some ''A1'', previousQuestion := Some ''Q1''\<rparr>) =
     FollowUpPrompt (Some ''Q2'') (Some [Document ''Batman ...'']) (Some ''A1'') (Some ''Q1'')
   \<and> search_messages (no_update\<lparr>question := Some ''Q2'', context' := Some [],
       answer := Some ''A1'', previousQuestion := Some ''Q1''\<rparr>) =
     FollowUpPrompt (Some ''Q2'') (Some []) (Some ''A1'') (Some ''Q1'')
   \<and> search_messages (no_update\<lparr>question := Some ''Q2'', context' := Some [Document ''Batman ...''],
       answer := Some [], previousQuestion := Some ''Q1''\<rparr>) = StartingPrompt (Some ''Q2'')
   \<and> search_messages (no_update\<lparr>question := Some ''Q1''\<rparr>) = StartingPrompt (Some ''Q1'')"
  using search_mode [of "no_update\<lparr>question := Some ''Q2'', context' := Some [Document ''Batman ...''],
       answer := Some ''A1'', previousQuestion := Some ''Q1''\<rparr>"]
    search_mode [of "no_update\<lparr>question := Some ''Q2'', context' := Some [],
       answer := Some ''A1'', previousQuestion := Some ''Q1''\<rparr>"]
    search_mode [of "no_update\<lparr>question := Some ''Q2'', context' := Some [Document ''Batman ...''],
       answer := Some [], previousQuestion := Some ''Q1''\<rparr>"]
    search_mode [of "no_update\<lparr>question := Some ''Q1''\<rparr>"]
  by simp

section \<open>The session loop: claim C8\<close>




section \<open>Turns: claims C9, C4, C10, C1 and C3\<close>

subsection \<open>What each node returns\<close>

lemma apply_writes_question [simp]:
  "apply_writes s (no_update\<lparr>question := Some q\<rparr>) = s\<lparr>question := Some q\<rparr>"
  by (simp add: apply_writes_def)

lemma search_fst:
  "fst (search env s w) =
     (case llm_invoke env (search_messages s) of
        Inl e \<Rightarrow> Inl e
      | Inr response \<Rightarrow>
          (case wikiToolCall response of
             None \<Rightarrow> Inr (no_update\<lparr>searchTerm := Some [], answer := Some (content response)\<rparr>)
           | Some call \<Rightarrow>
               Inr (no_update\<lparr>searchTerm := Some (args_searchTerm call),
                      answer := Some (content response),
                      previousQuestion := question s\<rparr>)))"
  by (simp add: search_def Let_def split: sum.splits option.splits)

lemma search_eq:
  "search env s w = (fst (search env s w'), emit (LlmInvoke (search_messages s)) w)"
proof (cases "search env s w")
  case (Pair r w1)
  then have "r = fst (search env s w')"
    using search_fst [of env s w] search_fst [of env s w'] by simp
  with Pair show ?thesis
    by (simp add: search_rel)
qed

lemma search_update:
  assumes "fst (search env s w) = Inr u"
  shows "question u = None" "context' u = None" "searchContent u = None" "searchTerm u \<noteq> None"
    "answer u \<noteq> None"
  using assms by (auto simp add: search_fst split: sum.splits option.splits)

lemma fetchWiki_skip:
  assumes "searchTerm s = Some []"
  shows "fetchWiki env s w = (Inr s, console_log AnsweringPrevious w)"
  using assms by (simp add: fetchWiki_def)

lemma fetchWiki_update:
  assumes "fetchWiki env s w = (Inr u, w')"
  shows "u = s \<or> (\<exists>c. u = no_update\<lparr>searchContent := Some c\<rparr>)"
  using assms by (auto simp add: fetchWiki_def split: option.splits if_splits prod.splits sum.splits)

lemma retrieve_update:
  assumes "retrieve env s w = (Inr u, w')"
  shows "\<exists>docs. u = no_update\<lparr>context' := Some docs\<rparr>"
  using assms
  by (auto simp add: retrieve_def retrievedDocs_def Let_def split: option.splits prod.splits sum.splits)

lemma generate_update:
  assumes "generate env s w = (Inr u, w')"
  shows "\<exists>a. u = no_update\<lparr>answer := Some a\<rparr>"
  using assms by (auto simp add: generate_def Let_def split: option.splits sum.splits)

lemma checkpoint_same:
  assumes "memory w t = s"
  shows "checkpoint t s w = w"
  using assms [symmetric] by (simp add: checkpoint_def)

lemma invoke_unfold:
  "invoke env q t w =
     (case fst (search env ((memory w t)\<lparr>question := Some q\<rparr>) w) of
        Inl e \<Rightarrow>
          (Inl e, emit (LlmInvoke (search_messages ((memory w t)\<lparr>question := Some q\<rparr>)))
             (checkpoint t (no_update\<lparr>question := Some q\<rparr>) (emit (GraphInvoke t q) w)))
      | Inr u \<Rightarrow>
          run_nodes env t [FetchWiki, Retrieve, Generate]
            (checkpoint t u
               (emit (LlmInvoke (search_messages ((memory w t)\<lparr>question := Some q\<rparr>)))
                  (checkpoint t (no_update\<lparr>question := Some q\<rparr>) (emit (GraphInvoke t q) w)))))"
  by (simp add: invoke_def graph_def
      search_eq [of env _ "checkpoint t (no_update\<lparr>question := Some q\<rparr>) (emit (GraphInvoke t q) w)" w]
      split: sum.splits)

lemma invoke_without_content:
  assumes "fst (search env ((memory w t)\<lparr>question := Some q\<rparr>) w) = Inr u"
    and "searchTerm u = Some []"
    and "searchContent (memory w t) = None"
    and "embeddingCache w None = None"
  shows "invoke env q t w =
      (Inl (TypeError ''Cannot read properties of undefined''),
       emit (CreateEmbeddings None) (console_log CreatingEmbeddings (console_log AnsweringPrevious
         (checkpoint t u (emit (LlmInvoke (search_messages ((memory w t)\<lparr>question := Some q\<rparr>)))
            (checkpoint t (no_update\<lparr>question := Some q\<rparr>) (emit (GraphInvoke t q) w)))))))"
proof -
  define s1 where "s1 = apply_writes ((memory w t)\<lparr>question := Some q\<rparr>) u"
  have s1: "searchTerm s1 = Some []" "searchContent s1 = None"
    using assms(2,3) search_update(3) [OF assms(1)] by (simp_all add: s1_def)
  have f: "fetchWiki env s1 W = (Inr s1, console_log AnsweringPrevious W)" for W
    using s1(1) by (rule fetchWiki_skip)
  have c: "checkpoint t s1 (console_log AnsweringPrevious (checkpoint t u W)) =
      console_log AnsweringPrevious (checkpoint t u W)"
    if "memory W t = (memory w t)\<lparr>question := Some q\<rparr>" for W
    by (rule checkpoint_same) (simp add: that s1_def)
  have r: "retrieve env s1 W =
      (Inl (TypeError ''Cannot read properties of undefined''),
       emit (CreateEmbeddings None) (console_log CreatingEmbeddings W))"
    if "embeddingCache W None = None" for W
    using that by (simp add: retrieve_def createEmbeddings_def s1(2))
  show ?thesis
    unfolding invoke_unfold assms(1)
    by (simp add: s1_def [symmetric] f c r assms(4))
qed

text \<open>
  Claim C9. On the first turn of a session, when the model answers the reasoning step
  with no \<^verbatim>\<open>wikipedia\<close> call (or with one whose search term is empty), the turn does
  not return the model's answer: fetchWiki skips, the retrieve step calls
  \<^verbatim>\<open>createEmbeddings\<close> on the absent \<open>searchContent\<close>, which throws, and the loop prints
  the error in place of an answer. The provisional answer stays in the state.
\<close>

theorem first_turn_without_search_term_fails:
  assumes "toLowerCase (trim data) \<noteq> ''/bye''" and "trim data \<noteq> []"
    and "llm_invoke env (StartingPrompt (Some (trim data))) = Inr response"
    and "wikiToolCall response = None
         \<or> (\<exists>call. wikiToolCall response = Some call \<and> args_searchTerm call = [])"
  shows "fst (invoke env (trim data) 1 (console_log Thinking init_world)) =
           Inl (TypeError ''Cannot read properties of undefined'')
    \<and> trace (on_data env data init_world) =
        [ConsoleLog Thinking, GraphInvoke 1 (trim data),
         LlmInvoke (StartingPrompt (Some (trim data))),
         ConsoleLog AnsweringPrevious,
         ConsoleLog CreatingEmbeddings, CreateEmbeddings None,
         ConsoleError (ErrorLine (TypeError ''Cannot read properties of undefined'')),
         ConsoleLog AskAnother]
    \<and> searchContent (memory (on_data env data init_world) 1) = None
    \<and> answer (memory (on_data env data init_world) 1) = Some (content response)"
proof -
  let ?w = "console_log Thinking init_world"
  let ?s0 = "(memory ?w 1)\<lparr>question := Some (trim data)\<rparr>"
  have mem: "memory ?w 1 = no_update"
    by (simp add: init_world_def)
  have m: "search_messages ?s0 = StartingPrompt (Some (trim data))"
    unfolding mem by (simp add: search_messages_def truthy_array_def)
  define u where "u = (case wikiToolCall response of
      None \<Rightarrow> no_update\<lparr>searchTerm := Some [], answer := Some (content response)\<rparr>
    | Some call \<Rightarrow> no_update\<lparr>searchTerm := Some (args_searchTerm call),
        answer := Some (content response), previousQuestion := question ?s0\<rparr>)"
  have u: "fst (search env ?s0 ?w) = Inr u"
    unfolding search_fst m using assms(3,4) by (auto simp add: u_def)
  have u': "searchTerm u = Some []" "answer u = Some (content response)" "searchContent u = None"
    using assms(4) by (auto simp add: u_def)
  have c: "searchContent (memory ?w 1) = None" "embeddingCache ?w None = None"
    unfolding mem by (simp_all add: init_world_def)
  note i = invoke_without_content [OF u u'(1) c, unfolded m]
  have "on_data env data init_world =
      console_log AskAnother (console_error (ErrorLine (TypeError ''Cannot read properties of undefined''))
        (snd (invoke env (trim data) 1 ?w)))"
    using assms(1,2) by (simp add: on_data_def i)
  then show ?thesis
    unfolding i using u' by (simp add: init_world_def)
qed

text \<open>A model that answers the first question directly.\<close>

theorem first_turn_without_search_term_fails_witness:
  "trace (on_data (demo_env\<lparr>llm_invoke := (\<lambda>m. Inr (AIMessage ''I know.'' None))\<rparr>)
       ''Who is Batman?'' init_world) =
     [ConsoleLog Thinking, GraphInvoke 1 ''Who is Batman?'',
      LlmInvoke (StartingPrompt (Some ''Who is Batman?'')),
      ConsoleLog AnsweringPrevious,
      ConsoleLog CreatingEmbeddings, CreateEmbeddings None,
      ConsoleError (ErrorLine (TypeError ''Cannot read properties of undefined'')),
      ConsoleLog AskAnother]"
proof -
  let ?env = "demo_env\<lparr>llm_invoke := (\<lambda>m. Inr (AIMessage ''I know.'' None))\<rparr>"
  have t: "trim ''Who is Batman?'' = ''Who is Batman?''"
    by (simp add: trim_def isWhiteSpace_def)
  have 1: "toLowerCase (trim ''Who is Batman?'') \<noteq> ''/bye''" "trim ''Who is Batman?'' \<noteq> []"
    unfolding t by (simp_all add: toLowerCase_bye)
  have 2: "llm_invoke ?env (StartingPrompt (Some (trim ''Who is Batman?''))) =
      Inr (AIMessage ''I know.'' None)"
    by simp
  have 3: "wikiToolCall (AIMessage ''I know.'' None) = None
      \<or> (\<exists>call. wikiToolCall (AIMessage ''I know.'' None) = Some call \<and> args_searchTerm call = [])"
    by (simp add: wikiToolCall_def)
  show ?thesis
    using first_turn_without_search_term_fails [OF 1 2 3] unfolding t by simp
qed

subsection \<open>A turn that skips the fetch\<close>

lemma run_retrieve_generate_fetches:
  assumes "run_nodes env t [Retrieve, Generate] w = (r, w')"
  shows "filter is_fetch (trace w') = filter is_fetch (trace w)"
proof -
  obtain r1 w1 where 1: "retrieve env (memory w t) w = (r1, w1)"
    by (cases "retrieve env (memory w t) w")
  note f1 = retrieve_rel(3) [OF 1]
  show ?thesis
  proof (cases r1)
    case (Inl e)
    with assms 1 f1 show ?thesis by simp
  next
    case (Inr u)
    obtain r2 w2 where 2: "generate env (memory (checkpoint t u w1) t) (checkpoint t u w1) = (r2, w2)"
      by (cases "generate env (memory (checkpoint t u w1) t) (checkpoint t u w1)")
    have "filter is_fetch (trace w2) = filter is_fetch (trace w1)"
      using generate_rel(4) [OF 2] by simp
    moreover have "trace w' = trace w2"
      using assms 1 2 Inr by (auto split: sum.splits)
    ultimately show ?thesis
      using f1 by simp
  qed
qed

lemma apply_writes_update [simp]:
  "apply_writes s (no_update\<lparr>context' := Some docs\<rparr>) = s\<lparr>context' := Some docs\<rparr>"
  "apply_writes s (no_update\<lparr>answer := Some a\<rparr>) = s\<lparr>answer := Some a\<rparr>"
  "apply_writes s (no_update\<lparr>searchContent := Some c\<rparr>) = s\<lparr>searchContent := Some c\<rparr>"
  by (simp_all add: apply_writes_def)

text \<open>
  Claim C4. In a turn whose reasoning step returns the empty search term, fetchWiki
  returns the state as it is (writing it back changes nothing) and prints that it
  answers from the previous context; the rest of the turn is the retrieve and the
  generate steps run on that state; the turn makes no request to the search service
  or for a page. When the content carried in the state has an index in the cache and
  the similarity search and the model return, the turn uses that index without
  building one, and its answer is the model's fresh answer to the retrieved context.
\<close>

theorem fetchWiki_skipped_turn:
  assumes "fst (search env ((memory w t)\<lparr>question := Some q\<rparr>) w) = Inr u"
    and "searchTerm u = Some []"
  shows "fetchWiki env (apply_writes ((memory w t)\<lparr>question := Some q\<rparr>) u) w' =
           (Inr (apply_writes ((memory w t)\<lparr>question := Some q\<rparr>) u), console_log AnsweringPrevious w')
    \<and> invoke env q t w =
        run_nodes env t [Retrieve, Generate]
          (console_log AnsweringPrevious
             (checkpoint t u
                (emit (LlmInvoke (search_messages ((memory w t)\<lparr>question := Some q\<rparr>)))
                   (checkpoint t (no_update\<lparr>question := Some q\<rparr>) (emit (GraphInvoke t q) w)))))
    \<and> filter is_fetch (trace (snd (invoke env q t w))) = filter is_fetch (trace w)
    \<and> (\<forall>vs docs final.
          embeddingCache w (searchContent (memory w t)) = Some vs
          \<and> similaritySearch env vs (Some q) = Inr docs
          \<and> llm_invoke env (Prompt (Some q) (join newline (map pageContent docs))) = Inr final
          \<longrightarrow> fst (invoke env q t w) =
                Inr ((apply_writes ((memory w t)\<lparr>question := Some q\<rparr>) u)
                       \<lparr>context' := Some docs, answer := Some (content final)\<rparr>)
              \<and> trace (snd (invoke env q t w)) =
                  trace w @ [GraphInvoke t q,
                    LlmInvoke (search_messages ((memory w t)\<lparr>question := Some q\<rparr>)),
                    ConsoleLog AnsweringPrevious, ConsoleLog UsingCached,
                    SimilaritySearch (Some q),
                    LlmInvoke (Prompt (Some q) (join newline (map pageContent docs)))])"
proof -
  define s1 where "s1 = apply_writes ((memory w t)\<lparr>question := Some q\<rparr>) u"
  define w1 where "w1 = checkpoint t u
      (emit (LlmInvoke (search_messages ((memory w t)\<lparr>question := Some q\<rparr>)))
         (checkpoint t (no_update\<lparr>question := Some q\<rparr>) (emit (GraphInvoke t q) w)))"
  have s1: "searchTerm s1 = Some []" "searchContent s1 = searchContent (memory w t)"
    "question s1 = Some q"
    using assms(2) search_update(1,3) [OF assms(1)] by (simp_all add: s1_def)
  have w1: "memory w1 t = s1" "embeddingCache w1 = embeddingCache w"
    "trace w1 = trace w @ [GraphInvoke t q,
       LlmInvoke (search_messages ((memory w t)\<lparr>question := Some q\<rparr>))]"
    by (simp_all add: w1_def s1_def)
  have f: "fetchWiki env s1 W = (Inr s1, console_log AnsweringPrevious W)" for W
    using s1(1) by (rule fetchWiki_skip)
  have c: "checkpoint t s1 (console_log AnsweringPrevious w1) = console_log AnsweringPrevious w1"
    by (rule checkpoint_same) (simp add: w1)
  have i: "invoke env q t w = run_nodes env t [Retrieve, Generate] (console_log AnsweringPrevious w1)"
    unfolding invoke_unfold assms(1)
    by (simp add: s1_def [symmetric] w1_def [symmetric] w1 f c del: checkpoint_simps)
  have nf: "filter is_fetch (trace (snd (invoke env q t w))) = filter is_fetch (trace w)"
  proof -
    obtain r w2 where "run_nodes env t [Retrieve, Generate] (console_log AnsweringPrevious w1) = (r, w2)"
      by (cases "run_nodes env t [Retrieve, Generate] (console_log AnsweringPrevious w1)")
    then show ?thesis
      using run_retrieve_generate_fetches [of env t "console_log AnsweringPrevious w1" r w2]
      by (simp add: i w1)
  qed
  have ok: "fst (invoke env q t w) = Inr (s1\<lparr>context' := Some docs, answer := Some (content final)\<rparr>)
      \<and> trace (snd (invoke env q t w)) =
          trace w @ [GraphInvoke t q,
            LlmInvoke (search_messages ((memory w t)\<lparr>question := Some q\<rparr>)),
            ConsoleLog AnsweringPrevious, ConsoleLog UsingCached,
            SimilaritySearch (Some q),
            LlmInvoke (Prompt (Some q) (join newline (map pageContent docs)))]"
    if "embeddingCache w (searchContent (memory w t)) = Some vs"
      and "similaritySearch env vs (Some q) = Inr docs"
      and "llm_invoke env (Prompt (Some q) (join newline (map pageContent docs))) = Inr final"
    for vs docs final
    unfolding i using that
    by (simp add: retrieve_def retrievedDocs_def generate_def Let_def w1 s1)
  show ?thesis
    using f i nf ok unfolding s1_def w1_def by blast
qed


text \<open>The second question after the first was answered from Wikipedia.\<close>

theorem fetchWiki_skipped_turn_witness:
  "fst (invoke demo_env ''Who played him?'' 1 demo_world) =
     Inr \<lparr>question = Some ''Who played him?'', context' = Some [Document demo_content],
          searchTerm = Some [], searchContent = Some demo_content,
          answer = Some ''Batman is a superhero.'', previousQuestion = Some ''Who is Batman?''\<rparr>
   \<and> filter is_fetch (trace (snd (invoke demo_env ''Who played him?'' 1 demo_world))) =
       [WikiSearch ''Batman'', WikiPage ''Batman'', WikiPage ''Batman in film'',
        WikiPage ''The Batman (film)'']"
proof -
  let ?s0 = "(memory demo_world 1)\<lparr>question := Some ''Who played him?''\<rparr>"
  let ?u = "no_update\<lparr>searchTerm := Some [], answer := Some ''Michael Keaton.''\<rparr>"
  have 1: "fst (search demo_env ?s0 demo_world) = Inr ?u"
    by (simp add: search_fst demo_world_fields(1) search_messages_def truthy_array_def
        truthy_string_def demo_env_def demo_llm_def wikiToolCall_def)
  have 2: "searchTerm ?u = Some []"
    by simp
  have 3: "embeddingCache demo_world (searchContent (memory demo_world 1)) =
      Some [(Document demo_content, [])]"
    by (simp add: demo_world_fields)
  have 4: "similaritySearch demo_env [(Document demo_content, [])] (Some ''Who played him?'') =
      Inr [Document demo_content]"
    by (simp add: demo_env_def)
  have 5: "llm_invoke demo_env (Prompt (Some ''Who played him?'')
      (join newline (map pageContent [Document demo_content]))) = Inr (AIMessage ''Batman is a superhero.'' None)"
    by (simp add: demo_env_def demo_llm_def)
  from fetchWiki_skipped_turn [OF 1 2, of init_world] 3 4 5
  have "fst (invoke demo_env ''Who played him?'' 1 demo_world) =
      Inr ((apply_writes ?s0 ?u)\<lparr>context' := Some [Document demo_content],
        answer := Some (content (AIMessage ''Batman is a superhero.'' None))\<rparr>)"
    and "filter is_fetch (trace (snd (invoke demo_env ''Who played him?'' 1 demo_world))) =
      filter is_fetch (trace demo_world)"
    by blast+
  then show ?thesis
    by (simp add: demo_world_fields apply_writes_def)
qed

subsection \<open>What a turn keeps\<close>

lemma node_keeps:
  assumes "node_fn n env s w = (Inr u, w1)" and "n \<noteq> Search"
  shows "previousQuestion (apply_writes s u) = previousQuestion s"
    "searchTerm (apply_writes s u) = searchTerm s"
    "question (apply_writes s u) = question s"
    "n \<noteq> Generate \<Longrightarrow> answer (apply_writes s u) = answer s"
proof -
  consider (f) "n = FetchWiki" | (r) "n = Retrieve" | (g) "n = Generate"
    using assms(2) by (cases n) simp_all
  then have "previousQuestion (apply_writes s u) = previousQuestion s
      \<and> searchTerm (apply_writes s u) = searchTerm s
      \<and> question (apply_writes s u) = question s
      \<and> (n \<noteq> Generate \<longrightarrow> answer (apply_writes s u) = answer s)"
  proof cases
    case f
    with assms(1) fetchWiki_update [of env s w u w1] show ?thesis by auto
  next
    case r
    with assms(1) retrieve_update [of env s w u w1] show ?thesis by auto
  next
    case g
    with assms(1) generate_update [of env s w u w1] show ?thesis by auto
  qed
  then show "previousQuestion (apply_writes s u) = previousQuestion s"
    "searchTerm (apply_writes s u) = searchTerm s"
    "question (apply_writes s u) = question s"
    "n \<noteq> Generate \<Longrightarrow> answer (apply_writes s u) = answer s"
    by simp_all
qed

lemma run_nodes_keeps:
  assumes "run_nodes env t ns w = (r, w')" and "Search \<notin> set ns"
  shows "previousQuestion (memory w' t) = previousQuestion (memory w t)
    \<and> searchTerm (memory w' t) = searchTerm (memory w t)
    \<and> question (memory w' t) = question (memory w t)"
  using assms
proof (induction ns arbitrary: w)
  case Nil
  then show ?case by auto
next
  case (Cons n ns)
  obtain r1 w1 where n: "node_fn n env (memory w t) w = (r1, w1)"
    by (cases "node_fn n env (memory w t) w")
  have m: "memory w1 = memory w"
    using node_fn_rel(2) [OF n] .
  show ?case
  proof (cases r1)
    case (Inl e)
    with Cons.prems n m show ?thesis by simp
  next
    case (Inr u)
    with Cons.prems n have "run_nodes env t ns (checkpoint t u w1) = (r, w')"
      by simp
    from Cons.IH [OF this] Cons.prems(2) node_keeps(1,2,3) [of n env "memory w t" w u w1] n Inr m
    show ?thesis by auto
  qed
qed


lemma invoke_memory:
  "memory (snd (invoke env q t w)) t =
     (case fst (search env ((memory w t)\<lparr>question := Some q\<rparr>) w) of
        Inl e \<Rightarrow> (memory w t)\<lparr>question := Some q\<rparr>
      | Inr u \<Rightarrow>
          memory (snd (run_nodes env t [FetchWiki, Retrieve, Generate]
            (checkpoint t u
               (emit (LlmInvoke (search_messages ((memory w t)\<lparr>question := Some q\<rparr>)))
                  (checkpoint t (no_update\<lparr>question := Some q\<rparr>) (emit (GraphInvoke t q) w)))))) t)"
  by (simp add: invoke_unfold split: sum.splits)

text \<open>
  Claim C10. A turn writes \<open>previousQuestion\<close> only when the model answers the
  reasoning step with a \<^verbatim>\<open>wikipedia\<close> call: then it becomes the turn's question. When
  the model answers without such a call (or the call to the model fails), the turn
  leaves \<open>previousQuestion\<close> as it was, whatever the later steps do. So after a turn
  without a search, a follow-up prompt of the next turn cites the \<open>previousQuestion\<close>
  from before that turn, which is the question of the latest turn with a
  \<^verbatim>\<open>wikipedia\<close> call, and not the question just asked.
\<close>

theorem previousQuestion_written_only_with_tool_call:
  "previousQuestion (memory (snd (invoke env q t w)) t) =
     (case llm_invoke env (search_messages ((memory w t)\<lparr>question := Some q\<rparr>)) of
        Inl e \<Rightarrow> previousQuestion (memory w t)
      | Inr response \<Rightarrow>
          (case wikiToolCall response of
             None \<Rightarrow> previousQuestion (memory w t)
           | Some call \<Rightarrow> Some q))
   \<and> (\<forall>response q'.
        llm_invoke env (search_messages ((memory w t)\<lparr>question := Some q\<rparr>)) = Inr response
        \<and> wikiToolCall response = None
        \<and> search_messages ((memory (snd (invoke env q t w)) t)\<lparr>question := Some q'\<rparr>)
            \<noteq> StartingPrompt (Some q')
        \<longrightarrow> search_messages ((memory (snd (invoke env q t w)) t)\<lparr>question := Some q'\<rparr>) =
              FollowUpPrompt (Some q')
                (context' (memory (snd (invoke env q t w)) t))
                (answer (memory (snd (invoke env q t w)) t))
                (previousQuestion (memory w t)))"
proof -
  let ?s0 = "(memory w t)\<lparr>question := Some q\<rparr>"
  let ?w0 = "emit (LlmInvoke (search_messages ?s0))
      (checkpoint t (no_update\<lparr>question := Some q\<rparr>) (emit (GraphInvoke t q) w))"
  have rest: "previousQuestion (memory (snd (run_nodes env t [FetchWiki, Retrieve, Generate]
      (checkpoint t u ?w0))) t) = put (previousQuestion (memory w t)) (previousQuestion u)" for u
  proof -
    obtain r w' where r: "run_nodes env t [FetchWiki, Retrieve, Generate] (checkpoint t u ?w0) = (r, w')"
      by (cases "run_nodes env t [FetchWiki, Retrieve, Generate] (checkpoint t u ?w0)")
    from run_nodes_keeps [OF r] show ?thesis
      unfolding r by simp
  qed
  have 1: "previousQuestion (memory (snd (invoke env q t w)) t) =
     (case llm_invoke env (search_messages ?s0) of
        Inl e \<Rightarrow> previousQuestion (memory w t)
      | Inr response \<Rightarrow>
          (case wikiToolCall response of
             None \<Rightarrow> previousQuestion (memory w t)
           | Some call \<Rightarrow> Some q))"
    unfolding invoke_memory search_fst
    by (simp add: rest del: run_nodes.simps split: sum.splits option.splits)
  have 2: "search_messages (m\<lparr>question := Some q'\<rparr>) =
      FollowUpPrompt (Some q') (context' m) (answer m) (previousQuestion m)"
    if "search_messages (m\<lparr>question := Some q'\<rparr>) \<noteq> StartingPrompt (Some q')" for m q'
    using that by (simp add: search_messages_def split: if_splits)
  show ?thesis
  proof (intro conjI allI impI)
    show "previousQuestion (memory (snd (invoke env q t w)) t) =
     (case llm_invoke env (search_messages ?s0) of
        Inl e \<Rightarrow> previousQuestion (memory w t)
      | Inr response \<Rightarrow>
          (case wikiToolCall response of
             None \<Rightarrow> previousQuestion (memory w t)
           | Some call \<Rightarrow> Some q))"
      by (rule 1)
  next
    fix response q'
    assume a: "llm_invoke env (search_messages ?s0) = Inr response
        \<and> wikiToolCall response = None
        \<and> search_messages ((memory (snd (invoke env q t w)) t)\<lparr>question := Some q'\<rparr>)
            \<noteq> StartingPrompt (Some q')"
    then have "previousQuestion (memory (snd (invoke env q t w)) t) = previousQuestion (memory w t)"
      using 1 by simp
    with 2 [where m = "memory (snd (invoke env q t w)) t" and q' = q'] a
    show "search_messages ((memory (snd (invoke env q t w)) t)\<lparr>question := Some q'\<rparr>) =
        FollowUpPrompt (Some q')
          (context' (memory (snd (invoke env q t w)) t))
          (answer (memory (snd (invoke env q t w)) t))
          (previousQuestion (memory w t))"
      by simp
  qed
qed


text \<open>Three questions: the third prompt cites the first question, not the second.\<close>

theorem previousQuestion_written_only_with_tool_call_witness:
  "previousQuestion (memory demo_world 1) = Some ''Who is Batman?''
   \<and> previousQuestion (memory (snd (invoke demo_env ''Who played him?'' 1 demo_world)) 1) =
       Some ''Who is Batman?''
   \<and> search_messages ((memory (snd (invoke demo_env ''Who played him?'' 1 demo_world)) 1)
        \<lparr>question := Some ''And Robin?''\<rparr>) =
       FollowUpPrompt (Some ''And Robin?'') (Some [Document demo_content])
         (Some ''Batman is a superhero.'') (Some ''Who is Batman?'')"
proof -
  let ?s0 = "(memory demo_world 1)\<lparr>question := Some ''Who played him?''\<rparr>"
  let ?m = "memory (snd (invoke demo_env ''Who played him?'' 1 demo_world)) 1"
  have 1: "llm_invoke demo_env (search_messages ?s0) = Inr (AIMessage ''Michael Keaton.'' (Some []))"
    by (simp add: demo_world_fields(1) search_messages_def truthy_array_def truthy_string_def
        demo_env_def demo_llm_def)
  have 2: "wikiToolCall (AIMessage ''Michael Keaton.'' (Some [])) = None"
    by (simp add: wikiToolCall_def)
  have 3: "context' ?m = Some [Document demo_content]" "answer ?m = Some ''Batman is a superhero.''"
    by (simp_all add: invoke_def graph_def node_defs demo_world_fields demo_env_def demo_llm_def)
  then have 4: "search_messages (?m\<lparr>question := Some ''And Robin?''\<rparr>) \<noteq> StartingPrompt (Some ''And Robin?'')"
    by (simp add: search_messages_def truthy_array_def truthy_string_def)
  note t = previousQuestion_written_only_with_tool_call [of demo_env "''Who played him?''" 1 demo_world]
  from t 1 2 have a: "previousQuestion ?m = previousQuestion (memory demo_world 1)"
    by simp
  from t 1 2 4 have b: "search_messages (?m\<lparr>question := Some ''And Robin?''\<rparr>) =
      FollowUpPrompt (Some ''And Robin?'') (context' ?m) (answer ?m) (previousQuestion (memory demo_world 1))"
    by blast
  show ?thesis
    using a b 3 by (simp add: demo_world_fields(1))
qed

subsection \<open>A turn that fails\<close>





subsection \<open>The cache of indexes\<close>

lemma builds_append [simp]: "builds k (xs @ ys) = builds k xs + builds k ys"
  by (induction k xs rule: builds.induct) simp_all

lemma builds_map_WikiPage [simp]:
  "builds k (map WikiPage ts) = 0"
  "builds k (map (WikiPage \<circ> f) xs) = 0"
  by (induction ts, simp_all) (induction xs, simp_all)
















end
